theory Spec2Isabelle
  imports Main "HOL-Library.Multiset"
begin

section \<open>Python values used by the solver\<close>

text \<open>
  The exceptions that the code of \<^verbatim>\<open>hrd.py\<close> can raise.  \<open>ValueError\<close> carries the
  message of the \<^verbatim>\<open>raise\<close> statement; \<open>IndexError\<close> is what a list subscript out of range
  raises; \<open>AttributeError\<close> is what reading \<^verbatim>\<open>coord_x\<close> or calling \<^verbatim>\<open>to_list\<close> on
  \<^verbatim>\<open>None\<close> raises.
\<close>

datatype error = ValueError string | IndexError | AttributeError

definition ebind :: "error + 'a \<Rightarrow> ('a \<Rightarrow> error + 'b) \<Rightarrow> error + 'b" where
  "ebind m k = (case m of Inl e \<Rightarrow> Inl e | Inr v \<Rightarrow> k v)"

text \<open>
  A subscript \<^verbatim>\<open>xs[i]\<close> of a Python list: a negative index counts from the end, and an
  index outside \<open>-len \<dots> len - 1\<close> raises.  The result is the position that is read or
  written.
\<close>

definition py_index :: "'a list \<Rightarrow> int \<Rightarrow> error + nat" where
  "py_index xs i =
     (let n = int (length xs); j = (if i < 0 then i + n else i)
      in if 0 \<le> j \<and> j < n then Inr (nat j) else Inl IndexError)"

text \<open>\<^verbatim>\<open>sep.join(parts)\<close>.\<close>

fun py_join :: "string \<Rightarrow> string list \<Rightarrow> string" where
  "py_join sep [] = []"
| "py_join sep [x] = x"
| "py_join sep (x # y # ys) = x @ sep @ py_join sep (y # ys)"

section \<open>Pieces\<close>

definition char_goal :: char where "char_goal = CHR ''1''"
definition char_single :: char where "char_single = CHR ''2''"

record Piece =
  is_goal :: bool
  is_single :: bool
  coord_x :: int
  coord_y :: int
  orientation :: "string option"

text \<open>\<^verbatim>\<open>Piece.move\<close>: a translated copy, refused when a coordinate would be negative.\<close>

definition Piece_move :: "Piece \<Rightarrow> int \<Rightarrow> int \<Rightarrow> error + Piece" where
  "Piece_move p x y =
     (let new_x = coord_x p + x; new_y = coord_y p + y
      in if new_x < 0 \<or> new_y < 0 then Inl (ValueError ''x and y must be non-negative'')
         else Inr \<lparr>is_goal = is_goal p, is_single = is_single p,
                   coord_x = new_x, coord_y = new_y, orientation = orientation p\<rparr>)"

section \<open>Boards\<close>

type_synonym grid = "char list list"

record Board =
  width :: nat
  height :: nat
  pieces :: "Piece list"
  grid :: grid
  goal :: "Piece option"
  board_string :: string

text \<open>The two nested loops that fill the grid with \<^verbatim>\<open>'.'\<close>.\<close>

definition empty_grid :: "nat \<Rightarrow> nat \<Rightarrow> grid" where
  "empty_grid h w = replicate h (replicate w (CHR ''.''))"

text \<open>
  The assignment \<^verbatim>\<open>self.grid[y][x] = c\<close>: the row is looked up first, then the cell in
  it; either subscript may raise.
\<close>

definition grid_set :: "grid \<Rightarrow> int \<Rightarrow> int \<Rightarrow> char \<Rightarrow> error + grid" where
  "grid_set g y x c =
     ebind (py_index g y) (\<lambda>r.
     ebind (py_index (g ! r) x) (\<lambda>k.
     Inr (g[r := (g ! r)[k := c]])))"

text \<open>
  The body of the loop over the pieces in \<^verbatim>\<open>__construct_grid\<close>.  The loop state is the
  grid and the \<^verbatim>\<open>goal\<close> attribute.  A piece that is neither the goal nor a single and
  whose orientation is neither \<^verbatim>\<open>'h'\<close> nor \<^verbatim>\<open>'v'\<close> writes nothing.
\<close>

definition place_piece :: "grid \<times> Piece option \<Rightarrow> Piece \<Rightarrow> error + grid \<times> Piece option" where
  "place_piece st piece =
     (let g = fst st; gl = snd st; x = coord_x piece; y = coord_y piece in
      if is_goal piece then
        ebind (grid_set g y x char_goal) (\<lambda>g1.
        ebind (grid_set g1 y (x + 1) char_goal) (\<lambda>g2.
        ebind (grid_set g2 (y + 1) x char_goal) (\<lambda>g3.
        ebind (grid_set g3 (y + 1) (x + 1) char_goal) (\<lambda>g4.
        Inr (g4, Some piece)))))
      else if is_single piece then
        ebind (grid_set g y x char_single) (\<lambda>g1. Inr (g1, gl))
      else if orientation piece = Some ''h'' then
        ebind (grid_set g y x (CHR ''<'')) (\<lambda>g1.
        ebind (grid_set g1 y (x + 1) (CHR ''>'')) (\<lambda>g2.
        Inr (g2, gl)))
      else if orientation piece = Some ''v'' then
        ebind (grid_set g y x (CHR ''^'')) (\<lambda>g1.
        ebind (grid_set g1 (y + 1) x (CHR ''v'')) (\<lambda>g2.
        Inr (g2, gl)))
      else Inr (g, gl))"

fun place_pieces :: "grid \<times> Piece option \<Rightarrow> Piece list \<Rightarrow> error + grid \<times> Piece option" where
  "place_pieces st [] = Inr st"
| "place_pieces st (p # ps) = ebind (place_piece st p) (\<lambda>st'. place_pieces st' ps)"

text \<open>The counting loops at the end of \<^verbatim>\<open>__construct_grid\<close>.\<close>

definition count_row :: "char list \<Rightarrow> nat \<Rightarrow> nat" where
  "count_row row c = fold (\<lambda>j n. if j = CHR ''.'' then n + 1 else n) row c"

definition count_empty :: "grid \<Rightarrow> nat" where
  "count_empty g = fold count_row g 0"

definition construct_grid :: "nat \<Rightarrow> nat \<Rightarrow> Piece list \<Rightarrow> error + grid \<times> Piece option" where
  "construct_grid h w ps =
     ebind (place_pieces (empty_grid h w, None) ps) (\<lambda>st.
     if count_empty (fst st) \<noteq> 2 then Inl (ValueError ''The board is not valid.'')
     else Inr st)"

text \<open>\<^verbatim>\<open>Board.__init__\<close>.\<close>

definition Board_init :: "Piece list \<Rightarrow> error + Board" where
  "Board_init ps =
     ebind (construct_grid 5 4 ps) (\<lambda>st.
     Inr \<lparr>width = 4, height = 5, pieces = ps, grid = fst st, goal = snd st,
          board_string = py_join [CHR 0x0A] (fst st)\<rparr>)"

text \<open>
  \<^verbatim>\<open>Board.move\<close>.  The generator of successors only passes indices from
  \<^verbatim>\<open>range(len(pieces))\<close>; the subscript is modelled in full all the same.
\<close>

definition Board_move :: "Board \<Rightarrow> int \<Rightarrow> int \<Rightarrow> int \<Rightarrow> error + Board" where
  "Board_move b piece_number x y =
     (let new_pieces = pieces b in
      ebind (py_index new_pieces piece_number) (\<lambda>i.
      ebind (Piece_move (new_pieces ! i) x y) (\<lambda>p.
      Board_init (new_pieces[i := p]))))"

section \<open>Search states\<close>

text \<open>
  A state holds its board, the priority \<open>f\<close>, the depth and the parent state.  The
  attribute \<^verbatim>\<open>id\<close> (the identity hash of the board object) is never read and is left out.
\<close>

datatype State = State (board: Board) (f: int) (depth: int) (parent: "State option")

definition goal_distance :: "Board \<Rightarrow> error + int" where
  "goal_distance b =
     (case goal b of None \<Rightarrow> Inl AttributeError
      | Some g \<Rightarrow> Inr (\<bar>coord_x g - 1\<bar> + \<bar>coord_y g - 3\<bar>))"

definition manhattan_distance :: "State \<Rightarrow> error + int" where
  "manhattan_distance s = goal_distance (board s)"

text \<open>\<^verbatim>\<open>State.__init__\<close>: the heuristic is read from the board that was just stored.\<close>

definition State_init :: "Board \<Rightarrow> int \<Rightarrow> State option \<Rightarrow> error + State" where
  "State_init b d p = ebind (goal_distance b) (\<lambda>h. Inr (State b (d + h) d p))"

definition is_goal_state :: "State \<Rightarrow> error + bool" where
  "is_goal_state s =
     (case goal (board s) of None \<Rightarrow> Inl AttributeError
      | Some g \<Rightarrow> Inr (coord_x g = 1 \<and> coord_y g = 3))"

text \<open>\<^verbatim>\<open>__eq__\<close>, \<^verbatim>\<open>__lt__\<close> and \<^verbatim>\<open>__hash__\<close>; the hash of a Python string is a
  function of its characters, taken as a parameter.\<close>

definition State_eq :: "State \<Rightarrow> State \<Rightarrow> bool" where
  "State_eq s t = (board_string (board s) = board_string (board t))"

definition State_lt :: "State \<Rightarrow> State \<Rightarrow> bool" where
  "State_lt s t = (f s < f t)"


text \<open>
  \<^verbatim>\<open>generate_successors\<close>.  The \<^verbatim>\<open>continue\<close> in the \<^verbatim>\<open>finally\<close> clause discards any
  exception raised in the \<^verbatim>\<open>try\<close> block, so a failed candidate leaves the result as it
  was.
\<close>

definition directions :: "(int \<times> int) list" where
  "directions = [(1, 0), (-1, 0), (0, 1), (0, -1)]"

definition try_candidate :: "State \<Rightarrow> nat \<Rightarrow> int \<times> int \<Rightarrow> State list \<Rightarrow> State list" where
  "try_candidate s i d result =
     (case Board_move (board s) (int i) (fst d) (snd d) of
        Inl e \<Rightarrow> result
      | Inr new_board \<Rightarrow>
          (case State_init new_board (depth s + 1) (Some s) of
             Inl e \<Rightarrow> result
           | Inr t \<Rightarrow> result @ [t]))"

definition generate_successors :: "State \<Rightarrow> State list" where
  "generate_successors s =
     fold (\<lambda>i result. fold (try_candidate s i) directions result)
       [0 ..< length (pieces (board s))] []"

section \<open>The loader\<close>

text \<open>
  \<^verbatim>\<open>read_from_file\<close>, on the lines of the file (each line as the file iterator yields
  it).  The loop state is the piece list and the flag \<^verbatim>\<open>g_found\<close>.
\<close>

definition scan_char :: "nat \<Rightarrow> nat \<times> char \<Rightarrow> Piece list \<times> bool \<Rightarrow> Piece list \<times> bool" where
  "scan_char line_index xc st =
     (let ps = fst st; g_found = snd st; x = int (fst xc); ch = snd xc in
      if ch = CHR ''^'' then
        (ps @ [\<lparr>is_goal = False, is_single = False, coord_x = x,
                 coord_y = int line_index, orientation = Some ''v''\<rparr>], g_found)
      else if ch = CHR ''<'' then
        (ps @ [\<lparr>is_goal = False, is_single = False, coord_x = x,
                 coord_y = int line_index, orientation = Some ''h''\<rparr>], g_found)
      else if ch = char_single then
        (ps @ [\<lparr>is_goal = False, is_single = True, coord_x = x,
                 coord_y = int line_index, orientation = None\<rparr>], g_found)
      else if ch = char_goal then
        (if g_found = False then
           (ps @ [\<lparr>is_goal = True, is_single = False, coord_x = x,
                    coord_y = int line_index, orientation = None\<rparr>], True)
         else (ps, g_found))
      else (ps, g_found))"

definition scan_lines :: "string list \<Rightarrow> Piece list \<times> bool" where
  "scan_lines lines =
     fold (\<lambda>il st. fold (scan_char (fst il)) (enumerate 0 (snd il)) st)
       (enumerate 0 lines) ([], False)"

definition read_from_file :: "string list \<Rightarrow> error + Board" where
  "read_from_file lines = Board_init (fst (scan_lines lines))"

section \<open>Frontiers and the search\<close>

text \<open>
  \<^verbatim>\<open>_siftdown\<close> of the library module \<^verbatim>\<open>heapq\<close>: the loop moves parents down while the
  new item is smaller, and the item is stored where the loop stops.  The callers below
  only pass positions inside the list.
\<close>

function siftdown_loop :: "State list \<Rightarrow> nat \<Rightarrow> State \<Rightarrow> nat \<Rightarrow> State list \<times> nat" where
  "siftdown_loop heap startpos newitem pos =
     (if pos > startpos then
        (let parentpos = (pos - 1) div 2; parent = heap ! parentpos in
         if State_lt newitem parent
         then siftdown_loop (heap[pos := parent]) startpos newitem parentpos
         else (heap, pos))
      else (heap, pos))"
  by pat_completeness auto
termination
  by (relation "measure (\<lambda>(heap, startpos, newitem, pos). pos)") auto

definition siftdown :: "State list \<Rightarrow> nat \<Rightarrow> nat \<Rightarrow> State list" where
  "siftdown heap startpos pos =
     (let newitem = heap ! pos; r = siftdown_loop heap startpos newitem pos
      in (fst r)[snd r := newitem])"

text \<open>
  \<^verbatim>\<open>_siftup\<close>: the smaller child is moved up until a leaf is reached, the item is
  stored there and sifted down again.
\<close>

function siftup_loop :: "State list \<Rightarrow> nat \<Rightarrow> nat \<Rightarrow> nat \<Rightarrow> State list \<times> nat" where
  "siftup_loop heap endpos pos childpos =
     (if childpos < endpos then
        (let rightpos = childpos + 1;
             childpos1 = (if rightpos < endpos \<and> \<not> State_lt (heap ! childpos) (heap ! rightpos)
                          then rightpos else childpos)
         in siftup_loop (heap[pos := heap ! childpos1]) endpos childpos1 (2 * childpos1 + 1))
      else (heap, pos))"
  by pat_completeness auto
termination
  by (relation "measure (\<lambda>(heap, endpos, pos, childpos). endpos - childpos)") auto

definition siftup :: "State list \<Rightarrow> nat \<Rightarrow> State list" where
  "siftup heap pos =
     (let endpos = length heap; startpos = pos; newitem = heap ! pos;
          r = siftup_loop heap endpos pos (2 * pos + 1)
      in siftdown ((fst r)[snd r := newitem]) startpos (snd r))"

text \<open>\<^verbatim>\<open>heappush\<close> and \<^verbatim>\<open>heappop\<close>; popping from an empty list raises.\<close>

definition heappush :: "State list \<Rightarrow> State \<Rightarrow> State list" where
  "heappush heap item = siftdown (heap @ [item]) 0 (length (heap @ [item]) - 1)"

definition heappop :: "State list \<Rightarrow> error + State \<times> State list" where
  "heappop heap =
     (if heap = [] then Inl IndexError
      else (let lastelt = last heap; heap1 = butlast heap in
            if heap1 \<noteq> [] then Inr (heap1 ! 0, siftup (heap1[0 := lastelt]) 0)
            else Inr (lastelt, heap1)))"

text \<open>
  The two frontiers that \<^verbatim>\<open>search\<close> is called with: a Python list, used as a stack, and
  the class \<^verbatim>\<open>Heap\<close>.  The search uses \<^verbatim>\<open>append\<close>, \<^verbatim>\<open>pop\<close>, \<^verbatim>\<open>extend\<close> and the truth
  value of the frontier.
\<close>

datatype frontier = PyList "State list" | Heap "State list"

definition frontier_append :: "frontier \<Rightarrow> State \<Rightarrow> frontier" where
  "frontier_append fr item =
     (case fr of PyList xs \<Rightarrow> PyList (xs @ [item]) | Heap h \<Rightarrow> Heap (heappush h item))"

definition frontier_pop :: "frontier \<Rightarrow> error + State \<times> frontier" where
  "frontier_pop fr =
     (case fr of
        PyList xs \<Rightarrow> (if xs = [] then Inl IndexError else Inr (last xs, PyList (butlast xs)))
      | Heap h \<Rightarrow> ebind (heappop h) (\<lambda>r. Inr (fst r, Heap (snd r))))"

definition frontier_bool :: "frontier \<Rightarrow> bool" where
  "frontier_bool fr = (case fr of PyList xs \<Rightarrow> xs \<noteq> [] | Heap h \<Rightarrow> h \<noteq> [])"

definition frontier_extend :: "frontier \<Rightarrow> State list \<Rightarrow> frontier" where
  "frontier_extend fr items =
     (case fr of
        PyList xs \<Rightarrow> PyList (xs @ items)
      | Heap h \<Rightarrow> fold (\<lambda>item fr1. frontier_append fr1 item) items (Heap h))"

text \<open>
  \<^verbatim>\<open>State.search\<close>.  The set \<^verbatim>\<open>seen\<close> is kept as the list of the states added to it;
  membership compares the board strings, as the hash and the equality of states do.  The
  loop may in principle run forever, so its result is an option: \<open>None\<close> stands for a
  loop that does not end.  When the frontier is exhausted the function returns Python's
  \<^verbatim>\<open>None\<close>, here \<open>Inr None\<close>.
\<close>

definition in_seen :: "State \<Rightarrow> State list \<Rightarrow> bool" where
  "in_seen s seen = list_ex (\<lambda>t. State_eq s t) seen"

partial_function (option) search_loop :: "frontier \<Rightarrow> State list \<Rightarrow> (error + State option) option" where
  "search_loop frontier seen =
     (if frontier_bool frontier then
        (case frontier_pop frontier of
           Inl e \<Rightarrow> Some (Inl e)
         | Inr r \<Rightarrow>
             (if \<not> in_seen (fst r) seen then
                (case is_goal_state (fst r) of
                   Inl e \<Rightarrow> Some (Inl e)
                 | Inr g \<Rightarrow>
                     (if g then Some (Inr (Some (fst r)))
                      else search_loop (frontier_extend (snd r) (generate_successors (fst r)))
                             (fst r # seen)))
              else search_loop (snd r) seen))
      else Some (Inr None))"

declare search_loop.simps [code]

definition search :: "State \<Rightarrow> frontier \<Rightarrow> (error + State option) option" where
  "search s frontier = search_loop (frontier_append frontier s) []"

text \<open>\<^verbatim>\<open>to_list\<close>: the boards from the root to the state.\<close>

fun parent_chain :: "State \<Rightarrow> Board list" where
  "parent_chain (State b fv d p) = b # (case p of None \<Rightarrow> [] | Some q \<Rightarrow> parent_chain q)"

definition to_list :: "State \<Rightarrow> Board list" where
  "to_list s = rev (parent_chain s)"

text \<open>
  The main program: the layout is loaded, the root state is created, the search is run
  with the frontier that the option \<^verbatim>\<open>--algo\<close> selects, and the boards of the solution are
  written, separated by blank lines.  Calling \<^verbatim>\<open>to_list\<close> on the \<^verbatim>\<open>None\<close> of an exhausted
  search raises.
\<close>

datatype algo = Astar | Dfs

definition root_state :: "string list \<Rightarrow> error + State" where
  "root_state lines = ebind (read_from_file lines) (\<lambda>board. State_init board 0 None)"

definition main_prog :: "string list \<Rightarrow> algo \<Rightarrow> (error + string) option" where
  "main_prog lines a =
     (case root_state lines of
        Inl e \<Rightarrow> Some (Inl e)
      | Inr new_state \<Rightarrow>
          (case search new_state (if a = Astar then Heap [] else PyList []) of
             None \<Rightarrow> None
           | Some (Inl e) \<Rightarrow> Some (Inl e)
           | Some (Inr None) \<Rightarrow> Some (Inl AttributeError)
           | Some (Inr (Some solution)) \<Rightarrow>
               Some (Inr (py_join [CHR 0x0A, CHR 0x0A] (map board_string (to_list solution))))))"

section \<open>Boards and piece lists as shared objects\<close>

text \<open>
  A Python list is an object that several references may share, and so is a board.
  \<^verbatim>\<open>Board.move\<close> relies on the copy \<^verbatim>\<open>self.pieces[:]\<close> to leave the list of the board it is
  called on alone.  The store maps the address of a list object to its elements and the
  address of a board object to its attributes; the attribute \<^verbatim>\<open>pieces\<close> of a board object
  is the address of a list object.  \<open>fresh\<close> and \<open>fresh_board\<close> are the next addresses to
  allocate.  Every operation returns the store, also when it raises.
\<close>

record board_obj =
  o_width :: nat
  o_height :: nat
  o_pieces :: nat
  o_grid :: grid
  o_goal :: "Piece option"
  o_board_string :: string

record store =
  cells :: "nat \<Rightarrow> Piece list"
  fresh :: nat
  boards :: "nat \<Rightarrow> board_obj"
  fresh_board :: nat

definition list_copy :: "store \<Rightarrow> nat \<Rightarrow> nat \<times> store" where
  "list_copy \<sigma> a = (fresh \<sigma>, \<sigma>\<lparr>cells := (cells \<sigma>)(fresh \<sigma> := cells \<sigma> a), fresh := Suc (fresh \<sigma>)\<rparr>)"

definition list_getitem :: "store \<Rightarrow> nat \<Rightarrow> int \<Rightarrow> error + Piece" where
  "list_getitem \<sigma> a i = ebind (py_index (cells \<sigma> a) i) (\<lambda>k. Inr (cells \<sigma> a ! k))"

definition list_setitem :: "store \<Rightarrow> nat \<Rightarrow> int \<Rightarrow> Piece \<Rightarrow> error + store" where
  "list_setitem \<sigma> a i v =
     ebind (py_index (cells \<sigma> a) i) (\<lambda>k. Inr (\<sigma>\<lparr>cells := (cells \<sigma>)(a := (cells \<sigma> a)[k := v])\<rparr>))"

text \<open>
  \<^verbatim>\<open>Board(pieces)\<close> on a list object.  The grid is built in the new object only.  When the
  construction raises, the object under construction is not reachable from anywhere and
  the store is returned without it.
\<close>

definition Board_init_store :: "store \<Rightarrow> nat \<Rightarrow> (error + nat) \<times> store" where
  "Board_init_store \<sigma> pieces_ref =
     (case construct_grid 5 4 (cells \<sigma> pieces_ref) of
        Inl e \<Rightarrow> (Inl e, \<sigma>)
      | Inr st \<Rightarrow>
          (Inr (fresh_board \<sigma>),
           \<sigma>\<lparr>boards := (boards \<sigma>)(fresh_board \<sigma> :=
                 \<lparr>o_width = 4, o_height = 5, o_pieces = pieces_ref, o_grid = fst st,
                  o_goal = snd st, o_board_string = py_join [CHR 0x0A] (fst st)\<rparr>),
               fresh_board := Suc (fresh_board \<sigma>)\<rparr>))"

text \<open>\<^verbatim>\<open>Board.move\<close> on the board object at the address \<open>self\<close>.\<close>

definition Board_move_store :: "store \<Rightarrow> nat \<Rightarrow> int \<Rightarrow> int \<Rightarrow> int \<Rightarrow> (error + nat) \<times> store" where
  "Board_move_store \<sigma> self piece_number x y =
     (let new_pieces = fst (list_copy \<sigma> (o_pieces (boards \<sigma> self)));
          \<sigma>1 = snd (list_copy \<sigma> (o_pieces (boards \<sigma> self))) in
      case list_getitem \<sigma>1 new_pieces piece_number of
        Inl e \<Rightarrow> (Inl e, \<sigma>1)
      | Inr old \<Rightarrow>
          (case Piece_move old x y of
             Inl e \<Rightarrow> (Inl e, \<sigma>1)
           | Inr p \<Rightarrow>
               (case list_setitem \<sigma>1 new_pieces piece_number p of
                  Inl e \<Rightarrow> (Inl e, \<sigma>1)
                | Inr \<sigma>2 \<Rightarrow> Board_init_store \<sigma>2 new_pieces)))"

text \<open>The board that an address of the store stands for: its attributes, with the
  elements of its list object.\<close>

definition board_value :: "store \<Rightarrow> nat \<Rightarrow> Board" where
  "board_value \<sigma> a =
     \<lparr>width = o_width (boards \<sigma> a), height = o_height (boards \<sigma> a),
      pieces = cells \<sigma> (o_pieces (boards \<sigma> a)), grid = o_grid (boards \<sigma> a),
      goal = o_goal (boards \<sigma> a), board_string = o_board_string (boards \<sigma> a)\<rparr>"

section \<open>Notions used to state the properties\<close>

text \<open>The goal attribute after the loop over the pieces: the last goal piece, if any.\<close>

definition last_goal :: "Piece list \<Rightarrow> Piece option \<Rightarrow> Piece option" where
  "last_goal ps gl = (if filter is_goal ps = [] then gl else Some (last (filter is_goal ps)))"

text \<open>One candidate of the successor generator: a piece index and a unit translation.\<close>

definition candidate :: "State \<Rightarrow> nat \<Rightarrow> int \<times> int \<Rightarrow> State list" where
  "candidate s i d =
     (case Piece_move (pieces (board s) ! i) (fst d) (snd d) of
        Inl e \<Rightarrow> []
      | Inr q \<Rightarrow>
          (case Board_init ((pieces (board s))[i := q]) of
             Inl e \<Rightarrow> []
           | Inr nb \<Rightarrow> [State nb (depth s + 1 + projr (goal_distance nb)) (depth s + 1) (Some s)]))"

text \<open>The subscripts that Python accepts on the five rows and the four columns, and the
  pieces all of whose writes use such subscripts.\<close>

definition row_ok :: "int \<Rightarrow> bool" where "row_ok y \<longleftrightarrow> -5 \<le> y \<and> y < 5"
definition col_ok :: "int \<Rightarrow> bool" where "col_ok x \<longleftrightarrow> -4 \<le> x \<and> x < 4"

definition writes_in_range :: "Piece \<Rightarrow> bool" where
  "writes_in_range p =
     (let x = coord_x p; y = coord_y p in
      if is_goal p then row_ok y \<and> row_ok (y + 1) \<and> col_ok x \<and> col_ok (x + 1)
      else if is_single p then row_ok y \<and> col_ok x
      else if orientation p = Some ''h'' then row_ok y \<and> col_ok x \<and> col_ok (x + 1)
      else if orientation p = Some ''v'' then row_ok y \<and> row_ok (y + 1) \<and> col_ok x
      else True)"

text \<open>The cells \<open>(x, y)\<close> that a piece writes, in the order of the writes.\<close>

definition footprint :: "Piece \<Rightarrow> (int \<times> int) list" where
  "footprint p =
     (let x = coord_x p; y = coord_y p in
      if is_goal p then [(x, y), (x + 1, y), (x, y + 1), (x + 1, y + 1)]
      else if is_single p then [(x, y)]
      else if orientation p = Some ''h'' then [(x, y), (x + 1, y)]
      else if orientation p = Some ''v'' then [(x, y), (x, y + 1)]
      else [])"

section \<open>Layouts used as examples\<close>

text \<open>The classic layout: the goal block at the top, two empty cells at the bottom.\<close>

definition classic_layout :: "string list" where
  "classic_layout = [''^11^'', ''v11v'', ''^<>^'', ''v22v'', ''2..2'']"

text \<open>A layout in which the horizontal piece of the first row reaches under the single
  next to it, and a layout without a goal piece.\<close>

definition overlap_layout :: "string list" where
  "overlap_layout = [''2<22'', ''1122'', ''1122'', ''2222'', ''22..'']"

definition classic_root :: State where
  "classic_root = projr (State_init (projr (read_from_file classic_layout)) 0 None)"

text \<open>The store after the loader has built the board of the classic layout: the piece
  list is the list object 0 and the board is the board object 0.\<close>

definition classic_store :: store where
  "classic_store =
     snd (Board_init_store
       \<lparr>cells = (\<lambda>a. [])(0 := fst (scan_lines classic_layout)), fresh = 1,
        boards = (\<lambda>a. \<lparr>o_width = 0, o_height = 0, o_pieces = 0, o_grid = [], o_goal = None,
                          o_board_string = []\<rparr>),
        fresh_board = 0\<rparr> 0)"

text \<open>A layout in which no piece can move, and a layout without a goal piece.\<close>

definition stuck_layout :: "string list" where
  "stuck_layout = [''<>^^'', ''^.vv'', ''v<>^'', ''11.v'', ''11<>'']"

definition nogoal_layout :: "string list" where
  "nogoal_layout = [''2222'', ''2222'', ''2222'', ''2222'', ''22..'']"

definition single_at :: "int \<Rightarrow> int \<Rightarrow> Piece" where
  "single_at x y = \<lparr>is_goal = False, is_single = True, coord_x = x, coord_y = y, orientation = None\<rparr>"

section \<open>Shape of the grid\<close>

definition shape_ok :: "nat \<Rightarrow> nat \<Rightarrow> grid \<Rightarrow> bool" where
  "shape_ok h w g \<longleftrightarrow> length g = h \<and> (\<forall>row \<in> set g. length row = w)"

section \<open>Footprints\<close>

text \<open>
  The writes of a piece, cell by cell, in the order of the assignments of
  \<^verbatim>\<open>__construct_grid\<close>; the cells of the grid; piece lists whose footprints are pairwise
  disjoint, inside the grid and not empty; the symbol of a cell of a grid; and the
  effect of a sequence of writes on a map from cells to symbols.
\<close>

definition piece_writes :: "Piece \<Rightarrow> ((int \<times> int) \<times> char) list" where
  "piece_writes p =
     (let x = coord_x p; y = coord_y p in
      if is_goal p then
        [((x, y), char_goal), ((x + 1, y), char_goal), ((x, y + 1), char_goal),
         ((x + 1, y + 1), char_goal)]
      else if is_single p then [((x, y), char_single)]
      else if orientation p = Some ''h'' then [((x, y), CHR ''<''), ((x + 1, y), CHR ''>'')]
      else if orientation p = Some ''v'' then [((x, y), CHR ''^''), ((x, y + 1), CHR ''v'')]
      else [])"

definition in_grid :: "int \<times> int \<Rightarrow> bool" where
  "in_grid c \<longleftrightarrow> 0 \<le> fst c \<and> fst c < 4 \<and> 0 \<le> snd c \<and> snd c < 5"

definition well_placed :: "Piece list \<Rightarrow> bool" where
  "well_placed ps \<longleftrightarrow>
     distinct (concat (map footprint ps)) \<and>
     list_all in_grid (concat (map footprint ps)) \<and>
     list_all (\<lambda>p. footprint p \<noteq> []) ps"

definition cell_of :: "grid \<Rightarrow> int \<times> int \<Rightarrow> char" where
  "cell_of g c = g ! nat (snd c) ! nat (fst c)"

definition overlay :: "((int \<times> int) \<times> char) list \<Rightarrow> (int \<times> int \<Rightarrow> char) \<Rightarrow> int \<times> int \<Rightarrow> char" where
  "overlay ws m = fold (\<lambda>w m. m(fst w := snd w)) ws m"

fun write_all :: "grid \<Rightarrow> ((int \<times> int) \<times> char) list \<Rightarrow> error + grid" where
  "write_all g [] = Inr g"
| "write_all g (w # ws) =
     ebind (grid_set g (snd (fst w)) (fst (fst w)) (snd w)) (\<lambda>g'. write_all g' ws)"

definition dot :: "int \<times> int \<Rightarrow> char" where "dot c = CHR ''.''"


text \<open>The twenty cells of the grid, row by row, and the cells that a piece list covers.\<close>

definition all_cells :: "(int \<times> int) list" where
  "all_cells = concat (map (\<lambda>y. map (\<lambda>x. (x, y)) [0, 1, 2, 3]) [0, 1, 2, 3, 4])"

definition covered :: "Piece list \<Rightarrow> (int \<times> int) set" where
  "covered ps = set (concat (map footprint ps))"

text \<open>The root state of the overlap layout, and its first successor: the horizontal
  piece has moved left, over the single in the corner.\<close>

definition overlap_root :: State where
  "overlap_root = projr (root_state overlap_layout)"

definition hidden_state :: State where
  "hidden_state = generate_successors overlap_root ! 0"

section \<open>Properties\<close>

subsection \<open>Results of the error monad and of subscripts\<close>

lemma ebind_Inr_iff: "ebind m k = Inr v \<longleftrightarrow> (\<exists>u. m = Inr u \<and> k u = Inr v)"
  by (cases m) (auto simp: ebind_def)

lemma py_index_bound: "py_index xs i = Inr k \<Longrightarrow> k < length xs"
  by (auto simp: py_index_def Let_def split: if_splits)

lemma sum_Inr_projr: "\<not> isl x \<Longrightarrow> x = Inr (projr x)"
  by (cases x) auto

subsection \<open>The grid keeps its dimensions\<close>

lemma shape_ok_empty: "shape_ok h w (empty_grid h w)"
  by (simp add: shape_ok_def empty_grid_def)

lemma shape_ok_grid_set: "grid_set g y x c = Inr g' \<Longrightarrow> shape_ok h w g \<Longrightarrow> shape_ok h w g'"
  unfolding grid_set_def ebind_Inr_iff shape_ok_def
  by (auto dest!: py_index_bound set_update_subset_insert[THEN subsetD])

lemma shape_ok_place_piece:
  "place_piece st p = Inr st' \<Longrightarrow> shape_ok h w (fst st) \<Longrightarrow> shape_ok h w (fst st')"
  unfolding place_piece_def Let_def
  apply (auto simp: ebind_Inr_iff split: if_splits)
  apply (blast intro: shape_ok_grid_set)+
  done

lemma shape_ok_place_pieces:
  "place_pieces st ps = Inr st' \<Longrightarrow> shape_ok h w (fst st) \<Longrightarrow> shape_ok h w (fst st')"
  by (induction ps arbitrary: st) (auto simp: ebind_Inr_iff dest: shape_ok_place_piece)

lemma Board_init_Inr_iff:
  "Board_init ps = Inr b \<longleftrightarrow>
     (\<exists>st. place_pieces (empty_grid 5 4, None) ps = Inr st \<and> count_empty (fst st) = 2 \<and>
        b = \<lparr>width = 4, height = 5, pieces = ps, grid = fst st, goal = snd st,
             board_string = py_join [CHR 0x0A] (fst st)\<rparr>)"
  unfolding Board_init_def construct_grid_def ebind_Inr_iff
  by (auto split: if_splits)

lemma Board_init_shape: "Board_init ps = Inr b \<Longrightarrow> shape_ok 5 4 (grid b)"
  unfolding Board_init_Inr_iff
  by (auto dest: shape_ok_place_pieces[where h=5 and w=4] simp: shape_ok_empty)

lemma count_row_eq: "count_row row n = n + count_list row (CHR ''.'')"
  unfolding count_row_def by (induction row arbitrary: n) auto

lemma fold_count_row: "fold count_row g n = n + count_list (concat g) (CHR ''.'')"
  by (induction g arbitrary: n) (auto simp: count_row_eq)

lemma count_empty_eq: "count_empty g = count_list (concat g) (CHR ''.'')"
  by (simp add: count_empty_def fold_count_row)

lemma count_list_append: "count_list (xs @ ys) c = count_list xs c + count_list ys c"
  by (induction xs) auto

lemma length_py_join:
  "length (py_join sep rows) = length (concat rows) + length sep * (length rows - 1)"
  by (induction sep rows rule: py_join.induct) auto

lemma count_py_join:
  "c \<notin> set sep \<Longrightarrow> count_list (py_join sep rows) c = count_list (concat rows) c"
  by (induction sep rows rule: py_join.induct) (auto simp: count_list_append)

lemma length_concat_shape: "shape_ok h w g \<Longrightarrow> length (concat g) = h * w"
proof -
  assume a: "shape_ok h w g"
  then have "map length g = replicate h w"
    by (auto simp: shape_ok_def map_replicate_const[symmetric] simp del: map_replicate_const)
  then show ?thesis by (simp add: length_concat sum_list_replicate)
qed

lemma classic_loads: "\<not> isl (read_from_file classic_layout)"
  by code_simp

text \<open>
  C3, as the code has it.  The string of a board that was constructed joins the five rows
  with a newline between them: it has 24 characters, the 20 cell symbols and 4 separators,
  and exactly two of them are the empty-cell symbol.  The rows alone have
  \<open>width * height = 20\<close> symbols.
\<close>

theorem board_string_length:
  "Board_init ps = Inr b \<Longrightarrow>
     length (concat (grid b)) = width b * height b \<and> width b * height b = 20 \<and>
     length (board_string b) = 24 \<and>
     count_list (board_string b) (CHR ''.'') = 2"
proof -
  assume a: "Board_init ps = Inr b"
  have s: "shape_ok 5 4 (grid b)" using a by (rule Board_init_shape)
  have l: "length (concat (grid b)) = 20" using length_concat_shape[OF s] by simp
  have g: "board_string b = py_join [CHR 0x0A] (grid b)" "count_empty (grid b) = 2"
    "width b = 4" "height b = 5"
    using a unfolding Board_init_Inr_iff by auto
  have n: "length (grid b) = 5" using s by (simp add: shape_ok_def)
  show ?thesis
    using l n g by (simp add: length_py_join count_py_join count_empty_eq)
qed

theorem board_string_length_witness:
  "Board_init (fst (scan_lines classic_layout)) = Inr (projr (read_from_file classic_layout)) \<and>
   length (board_string (projr (read_from_file classic_layout))) = 24 \<and>
   count_list (board_string (projr (read_from_file classic_layout))) (CHR ''.'') = 2"
proof -
  have h: "Board_init (fst (scan_lines classic_layout)) = Inr (projr (read_from_file classic_layout))"
    using sum_Inr_projr[OF classic_loads] by (simp add: read_from_file_def)
  show ?thesis using h board_string_length[OF h] by simp
qed

text \<open>The claim as stated, length 20, fails on the classic layout.\<close>

theorem board_string_length_counterexample:
  "map_sum id (length \<circ> board_string) (read_from_file classic_layout) = Inr 24 \<and>
   (24::nat) \<noteq> 4 * 5"
  by code_simp

subsection \<open>The goal attribute of a board and of the boards reached by a move\<close>

lemma place_piece_goal:
  "place_piece st p = Inr st' \<Longrightarrow> snd st' = (if is_goal p then Some p else snd st)"
  unfolding place_piece_def Let_def
  by (auto simp: ebind_Inr_iff split: if_splits)

lemma place_pieces_goal:
  "place_pieces st ps = Inr st' \<Longrightarrow> snd st' = last_goal ps (snd st)"
proof (induction ps arbitrary: st)
  case Nil
  then show ?case by (simp add: last_goal_def)
next
  case (Cons p ps)
  from Cons.prems obtain st1 where 1: "place_piece st p = Inr st1" and 2: "place_pieces st1 ps = Inr st'"
    by (auto simp: ebind_Inr_iff)
  show ?case using Cons.IH[OF 2] place_piece_goal[OF 1]
    by (auto simp: last_goal_def)
qed

lemma Board_init_goal: "Board_init ps = Inr b \<Longrightarrow> goal b = last_goal ps None"
  unfolding Board_init_Inr_iff by (auto dest: place_pieces_goal)

lemma Board_init_pieces: "Board_init ps = Inr b \<Longrightarrow> pieces b = ps"
  unfolding Board_init_Inr_iff by auto

lemma Piece_move_Inr:
  "Piece_move p x y = Inr q \<Longrightarrow>
     is_goal q = is_goal p \<and> is_single q = is_single p \<and> orientation q = orientation p \<and>
     coord_x q = coord_x p + x \<and> coord_y q = coord_y p + y \<and> 0 \<le> coord_x q \<and> 0 \<le> coord_y q"
  by (auto simp: Piece_move_def Let_def split: if_splits)

lemma filter_update_split:
  "i < length xs \<Longrightarrow>
     filter P (xs[i := y]) = filter P (take i xs) @ filter P [y] @ filter P (drop (Suc i) xs) \<and>
     filter P xs = filter P (take i xs) @ filter P [xs ! i] @ filter P (drop (Suc i) xs)"
  by (metis append_Cons append_Nil filter_append id_take_nth_drop upd_conv_take_nth_drop)

lemma last_goal_update:
  assumes "i < length ps" "is_goal q = is_goal (ps ! i)"
  shows "(last_goal (ps[i := q]) None = None \<longleftrightarrow> last_goal ps None = None) \<and>
         (last_goal (ps[i := q]) None = last_goal ps None \<or>
          (last_goal (ps[i := q]) None = Some q \<and> last_goal ps None = Some (ps ! i)))"
  using filter_update_split[OF assms(1), of is_goal q] assms(2)
  by (auto simp: last_goal_def)

lemma Board_move_Inr:
  assumes "i < length (pieces b)" "Board_move b (int i) x y = Inr nb"
  shows "\<exists>q. Piece_move (pieces b ! i) x y = Inr q \<and> Board_init ((pieces b)[i := q]) = Inr nb"
  using assms by (auto simp: Board_move_def py_index_def Let_def ebind_Inr_iff)

lemma Board_move_in_range:
  "i < length (pieces b) \<Longrightarrow>
   Board_move b (int i) x y =
     (case Piece_move (pieces b ! i) x y of Inl e \<Rightarrow> Inl e
      | Inr q \<Rightarrow> Board_init ((pieces b)[i := q]))"
  by (auto simp: Board_move_def py_index_def Let_def ebind_def split: sum.splits)

lemma moved_goal:
  assumes b: "Board_init ps = Inr b" and i: "i < length ps"
    and m: "Board_move b (int i) x y = Inr nb"
  shows "(goal nb = None \<longleftrightarrow> goal b = None) \<and>
         (goal nb = goal b \<or>
          (\<exists>g q. goal b = Some g \<and> goal nb = Some q \<and> Piece_move g x y = Inr q))"
proof -
  have p: "pieces b = ps" using b by (rule Board_init_pieces)
  obtain q where q: "Piece_move (ps ! i) x y = Inr q" and n: "Board_init (ps[i := q]) = Inr nb"
    using Board_move_Inr[of i b x y nb] i m p by auto
  have g: "is_goal q = is_goal (ps ! i)" using Piece_move_Inr[OF q] by simp
  show ?thesis
    using last_goal_update[OF i g] Board_init_goal[OF b] Board_init_goal[OF n] q
    by auto
qed

subsection \<open>Successor generation\<close>

lemma try_candidate_append: "try_candidate s i d result = result @ try_candidate s i d []"
  by (simp add: try_candidate_def split: sum.splits)

lemma fold_try_candidate:
  "fold (try_candidate s i) ds result = result @ concat (map (\<lambda>d. try_candidate s i d []) ds)"
proof (induction ds arbitrary: result)
  case Nil
  then show ?case by simp
next
  case (Cons d ds)
  show ?case
    by (simp add: Cons.IH[of "try_candidate s i d result"])
       (subst try_candidate_append, simp)
qed

lemma fold_fold_try_candidate:
  "fold (\<lambda>i result. fold (try_candidate s i) ds result) is result =
     result @ concat (map (\<lambda>i. concat (map (\<lambda>d. try_candidate s i d []) ds)) is)"
  by (induction "is" arbitrary: result) (simp_all add: fold_try_candidate)

lemma generate_successors_concat:
  "generate_successors s =
     concat (map (\<lambda>i. concat (map (\<lambda>d. try_candidate s i d []) directions))
       [0 ..< length (pieces (board s))])"
  by (simp add: generate_successors_def fold_fold_try_candidate)

lemma State_init_Inr:
  "State_init b d p = Inr s \<longleftrightarrow>
     (\<exists>g. goal b = Some g \<and> s = State b (d + (\<bar>coord_x g - 1\<bar> + \<bar>coord_y g - 3\<bar>)) d p)"
  by (auto simp: State_init_def goal_distance_def ebind_Inr_iff split: option.splits)

lemma State_init_Inl: "State_init b d p = Inl e \<Longrightarrow> goal b = None"
  by (auto simp: State_init_def goal_distance_def ebind_def split: option.splits)

lemma try_candidate_eq:
  assumes b: "Board_init ps = Inr (board s)" and g: "goal (board s) \<noteq> None"
    and i: "i < length (pieces (board s))"
  shows "try_candidate s i d [] = candidate s i d"
proof (cases "Board_move (board s) (int i) (fst d) (snd d)")
  case (Inl e)
  then show ?thesis
    using i by (auto simp: try_candidate_def candidate_def Board_move_in_range split: sum.splits)
next
  case (Inr nb)
  have p: "pieces (board s) = ps" using b by (rule Board_init_pieces)
  have "goal nb \<noteq> None" using moved_goal[OF b _ Inr] i p g by auto
  then obtain gp where gp: "goal nb = Some gp" by auto
  then have "State_init nb (depth s + 1) (Some s) =
     Inr (State nb (depth s + 1 + projr (goal_distance nb)) (depth s + 1) (Some s))"
    by (simp add: State_init_def goal_distance_def ebind_def)
  then show ?thesis
    using Inr i by (auto simp: try_candidate_def candidate_def Board_move_in_range split: sum.splits)
qed
lemma successor_cases:
  assumes "t \<in> set (generate_successors s)"
  shows "\<exists>i d nb. i < length (pieces (board s)) \<and> d \<in> set directions \<and>
           Board_move (board s) (int i) (fst d) (snd d) = Inr nb \<and>
           State_init nb (depth s + 1) (Some s) = Inr t"
  using assms unfolding generate_successors_concat
  by (auto simp: try_candidate_def split: sum.splits) (metis sym)

lemma classic_root_board: "Board_init (fst (scan_lines classic_layout)) = Inr (board classic_root)"
  by code_simp

lemma classic_root_goal: "goal (board classic_root) \<noteq> None"
  by code_simp

lemma classic_root_init:
  "State_init (board classic_root) 0 None = Inr classic_root"
  by code_simp

text \<open>
  C4.  For a state whose board was constructed and has a goal piece, the successors are,
  for each piece index in ascending order and each translation in the order
  \<open>(1,0), (-1,0), (0,1), (0,-1)\<close>, the states of the candidates whose translation and
  whose board construction both succeed; a failed candidate contributes nothing and no
  error is returned.  Every successor has the depth of the state plus one and the state as
  its parent.
\<close>

theorem generate_successors_candidates:
  assumes "Board_init ps = Inr (board s)" "goal (board s) \<noteq> None"
  shows "generate_successors s =
           concat (map (\<lambda>i. concat (map (candidate s i) [(1, 0), (-1, 0), (0, 1), (0, -1)]))
             [0 ..< length (pieces (board s))]) \<and>
         (\<forall>t \<in> set (generate_successors s). depth t = depth s + 1 \<and> parent t = Some s)"
proof -
  have 1: "generate_successors s =
           concat (map (\<lambda>i. concat (map (candidate s i) directions))
             [0 ..< length (pieces (board s))])"
    unfolding generate_successors_concat
    by (rule arg_cong[where f=concat], rule map_cong, simp,
        rule arg_cong[where f=concat], rule map_cong, simp,
        rule try_candidate_eq[OF assms], simp)
  have 2: "\<And>t i d. t \<in> set (candidate s i d) \<Longrightarrow> depth t = depth s + 1 \<and> parent t = Some s"
    by (auto simp: candidate_def split: sum.splits)
  show ?thesis using 1 2 by (auto simp: directions_def)
qed

theorem generate_successors_candidates_witness:
  "Board_init (fst (scan_lines classic_layout)) = Inr (board classic_root) \<and>
   goal (board classic_root) \<noteq> None \<and>
   generate_successors classic_root =
     concat (map (\<lambda>i. concat (map (candidate classic_root i) [(1, 0), (-1, 0), (0, 1), (0, -1)]))
       [0 ..< length (pieces (board classic_root))])"
  using generate_successors_candidates[OF classic_root_board classic_root_goal]
    classic_root_board classic_root_goal
  by simp

subsection \<open>Failures of the board construction\<close>

lemma py_index_cases:
  "py_index xs i = (if - int (length xs) \<le> i \<and> i < int (length xs)
     then Inr (nat (if i < 0 then i + int (length xs) else i)) else Inl IndexError)"
  by (auto simp: py_index_def Let_def)

lemma grid_set_cases:
  assumes "shape_ok 5 4 g"
  shows "(row_ok y \<and> col_ok x \<longrightarrow> (\<exists>g'. grid_set g y x c = Inr g')) \<and>
         (\<not> (row_ok y \<and> col_ok x) \<longrightarrow> grid_set g y x c = Inl IndexError)"
proof -
  have l: "length g = 5" and r: "\<And>k. k < 5 \<Longrightarrow> length (g ! k) = 4"
    using assms by (auto simp: shape_ok_def)
  show ?thesis
  proof (cases "row_ok y")
    case True
    then have k: "nat (if y < 0 then y + 5 else y) < 5" by (auto simp: row_ok_def)
    show ?thesis using True r[OF k]
      by (auto simp: grid_set_def py_index_cases l ebind_def row_ok_def col_ok_def)
  next
    case False
    then show ?thesis
      by (auto simp: grid_set_def py_index_cases l ebind_def row_ok_def)
  qed
qed

lemma grid_set_Inr: "shape_ok 5 4 g \<Longrightarrow> row_ok y \<Longrightarrow> col_ok x \<Longrightarrow>
    \<exists>g'. grid_set g y x c = Inr g' \<and> shape_ok 5 4 g'"
  using grid_set_cases[of g y x c] shape_ok_grid_set by blast

lemma grid_set_Inl: "shape_ok 5 4 g \<Longrightarrow> grid_set g y x c = Inl e \<Longrightarrow>
    e = IndexError \<and> \<not> (row_ok y \<and> col_ok x)"
  using grid_set_cases[of g y x c] by auto

lemma ebind_Inl_iff: "ebind m k = Inl e \<longleftrightarrow> m = Inl e \<or> (\<exists>u. m = Inr u \<and> k u = Inl e)"
  by (cases m) (auto simp: ebind_def)

lemma place_piece_Inl:
  assumes "shape_ok 5 4 (fst st)" "place_piece st p = Inl e"
  shows "e = IndexError \<and> \<not> writes_in_range p"
  using assms(2) unfolding place_piece_def writes_in_range_def Let_def
  apply (simp split: if_splits add: ebind_Inl_iff)
  using assms(1) apply (blast dest: grid_set_Inl shape_ok_grid_set)+
  done

lemma place_piece_Inr:
  assumes "shape_ok 5 4 (fst st)" "writes_in_range p"
  shows "\<exists>st'. place_piece st p = Inr st'"
proof -
  have n: "place_piece st p \<noteq> Inl e" for e
  proof
    assume "place_piece st p = Inl e"
    then show False using place_piece_Inl[OF assms(1)] assms(2) by blast
  qed
  then show ?thesis by (cases "place_piece st p") auto
qed

lemma place_piece_Inr_range:
  assumes "shape_ok 5 4 (fst st)" "place_piece st p = Inr st'"
  shows "writes_in_range p"
  using assms(2) unfolding place_piece_def writes_in_range_def Let_def
  apply (simp split: if_splits add: ebind_Inr_iff)
  using assms(1) grid_set_cases apply (metis shape_ok_grid_set sum.distinct(1))+
  done
lemma place_pieces_cases:
  assumes "shape_ok 5 4 (fst st)"
  shows "((\<forall>p \<in> set ps. writes_in_range p) \<longrightarrow> (\<exists>st'. place_pieces st ps = Inr st')) \<and>
         ((\<exists>p \<in> set ps. \<not> writes_in_range p) \<longrightarrow> place_pieces st ps = Inl IndexError)"
  using assms
proof (induction ps arbitrary: st)
  case Nil
  then show ?case by simp
next
  case (Cons p ps)
  show ?case
  proof (cases "place_piece st p")
    case (Inl e)
    then show ?thesis
      using place_piece_Inl[OF Cons.prems Inl] by (auto simp: ebind_def)
  next
    case (Inr st1)
    have s1: "shape_ok 5 4 (fst st1)" using shape_ok_place_piece[OF Inr Cons.prems] .
    have r: "writes_in_range p" using place_piece_Inr_range[OF Cons.prems Inr] .
    show ?thesis using Cons.IH[OF s1] Inr r by (auto simp: ebind_def)
  qed
qed

text \<open>
  C2, as the code has it.  The construction raises the error "The board is not valid."
  exactly when every write has subscripts that Python accepts and the grid that results
  does not hold exactly two empty cells; it raises an index error exactly when some piece
  has a write with a subscript outside \<open>-5 \<dots> 4\<close> for the row or \<open>-4 \<dots> 3\<close> for the
  column; there is no other failure.  Overlapping pieces are not looked for.
\<close>

theorem Board_init_failure:
  "(Board_init ps = Inl IndexError \<longleftrightarrow> (\<exists>p \<in> set ps. \<not> writes_in_range p)) \<and>
   (Board_init ps = Inl (ValueError ''The board is not valid.'') \<longleftrightarrow>
      (\<exists>st. place_pieces (empty_grid 5 4, None) ps = Inr st \<and> count_empty (fst st) \<noteq> 2)) \<and>
   ((\<exists>b. Board_init ps = Inr b) \<longleftrightarrow>
      (\<exists>st. place_pieces (empty_grid 5 4, None) ps = Inr st \<and> count_empty (fst st) = 2)) \<and>
   (\<forall>e. Board_init ps = Inl e \<longrightarrow> e = IndexError \<or> e = ValueError ''The board is not valid.'')"
proof -
  have c: "((\<forall>p \<in> set ps. writes_in_range p) \<longrightarrow>
              (\<exists>st'. place_pieces (empty_grid 5 4, None) ps = Inr st')) \<and>
           ((\<exists>p \<in> set ps. \<not> writes_in_range p) \<longrightarrow>
              place_pieces (empty_grid 5 4, None) ps = Inl IndexError)"
    by (rule place_pieces_cases) (simp add: shape_ok_empty)
  show ?thesis
  proof (cases "place_pieces (empty_grid 5 4, None) ps")
    case (Inl e)
    then show ?thesis using c
      by (auto simp: Board_init_def construct_grid_def ebind_def)
  next
    case (Inr st)
    then show ?thesis using c
      by (auto simp: Board_init_def construct_grid_def ebind_def)
  qed
qed

theorem Board_init_failure_witness:
  "Board_init [single_at 4 0] = Inl IndexError \<and> \<not> writes_in_range (single_at 4 0)"
proof -
  have h: "\<exists>p \<in> set [single_at 4 0]. \<not> writes_in_range p" by code_simp
  show ?thesis using Board_init_failure[of "[single_at 4 0]"] h by simp
qed

text \<open>
  The claim as stated fails: the loader's pieces 1 and 2 of the layout below both cover
  the cell \<open>(2, 0)\<close> and the board is constructed; and a piece outside the grid makes the
  construction raise an index error, which is not the error "The board is not valid.".
\<close>

theorem Board_init_overlap_counterexample:
  "\<not> isl (read_from_file overlap_layout) \<and>
   (2, 0) \<in> set (footprint (fst (scan_lines overlap_layout) ! 1)) \<and>
   (2, 0) \<in> set (footprint (fst (scan_lines overlap_layout) ! 2)) \<and>
   Board_init [single_at 4 0] = Inl IndexError \<and>
   IndexError \<noteq> ValueError ''The board is not valid.''"
  by code_simp

subsection \<open>The heuristic\<close>

text \<open>
  C5.  The heuristic of a state is the Manhattan distance from the corner of its goal
  piece to \<open>(1, 3)\<close>; it is 0 exactly when the state is a goal state; the heuristic of a
  successor differs from it by at most 1.
\<close>

theorem heuristic_manhattan:
  assumes b: "Board_init ps = Inr b" and s: "State_init b d p = Inr s"
  shows "\<exists>g. goal (board s) = Some g \<and>
           manhattan_distance s = Inr (\<bar>coord_x g - 1\<bar> + \<bar>coord_y g - 3\<bar>) \<and>
           f s = depth s + (\<bar>coord_x g - 1\<bar> + \<bar>coord_y g - 3\<bar>) \<and>
           (manhattan_distance s = Inr 0 \<longleftrightarrow> is_goal_state s = Inr True) \<and>
           (\<forall>t \<in> set (generate_successors s). \<exists>h.
              manhattan_distance t = Inr h \<and>
              \<bar>h - (\<bar>coord_x g - 1\<bar> + \<bar>coord_y g - 3\<bar>)\<bar> \<le> 1)"
proof -
  from s obtain g where g: "goal b = Some g"
    and se: "s = State b (d + (\<bar>coord_x g - 1\<bar> + \<bar>coord_y g - 3\<bar>)) d p"
    unfolding State_init_Inr by auto
  have bs: "board s = b" using se by simp
  have succ: "\<exists>h. manhattan_distance t = Inr h \<and> \<bar>h - (\<bar>coord_x g - 1\<bar> + \<bar>coord_y g - 3\<bar>)\<bar> \<le> 1"
    if t: "t \<in> set (generate_successors s)" for t
  proof -
    from successor_cases[OF t] obtain i dd nb where
      i: "i < length (pieces (board s))" and dd: "dd \<in> set directions"
      and m: "Board_move (board s) (int i) (fst dd) (snd dd) = Inr nb"
      and ti: "State_init nb (depth s + 1) (Some s) = Inr t"
      by blast
    have p: "pieces b = ps" using b by (rule Board_init_pieces)
    have bt: "board t = nb" using ti unfolding State_init_Inr by auto
    have mg: "goal nb = goal b \<or>
          (\<exists>g q. goal b = Some g \<and> goal nb = Some q \<and> Piece_move g (fst dd) (snd dd) = Inr q)"
      using moved_goal[OF b _ m[unfolded bs]] i p bs by auto
    show ?thesis
      using mg g dd
      by (auto simp: manhattan_distance_def goal_distance_def bt directions_def
               dest!: Piece_move_Inr)
  qed
  show ?thesis
    apply (rule exI[of _ g])
    using g succ by (auto simp: se manhattan_distance_def goal_distance_def is_goal_state_def)
qed

theorem heuristic_manhattan_witness:
  "Board_init (fst (scan_lines classic_layout)) = Inr (board classic_root) \<and>
   State_init (board classic_root) 0 None = Inr classic_root \<and>
   (\<exists>g. goal (board classic_root) = Some g \<and>
      manhattan_distance classic_root = Inr (\<bar>coord_x g - 1\<bar> + \<bar>coord_y g - 3\<bar>) \<and>
      (\<forall>t \<in> set (generate_successors classic_root). \<exists>h.
         manhattan_distance t = Inr h \<and> \<bar>h - (\<bar>coord_x g - 1\<bar> + \<bar>coord_y g - 3\<bar>)\<bar> \<le> 1))"
  using heuristic_manhattan[OF classic_root_board classic_root_init]
    classic_root_board classic_root_init
  by blast

subsection \<open>A layout without a goal piece\<close>

lemma scan_char_no_goal:
  "snd xc \<noteq> char_goal \<Longrightarrow> \<forall>p \<in> set (fst st). \<not> is_goal p \<Longrightarrow>
     \<forall>p \<in> set (fst (scan_char i xc st)). \<not> is_goal p"
  by (auto simp: scan_char_def Let_def)

lemma fold_scan_char_no_goal:
  "\<forall>xc \<in> set xcs. snd xc \<noteq> char_goal \<Longrightarrow> \<forall>p \<in> set (fst st). \<not> is_goal p \<Longrightarrow>
     \<forall>p \<in> set (fst (fold (scan_char i) xcs st)). \<not> is_goal p"
proof (induction xcs arbitrary: st)
  case Nil
  then show ?case by simp
next
  case (Cons xc xcs)
  have "\<forall>p \<in> set (fst (scan_char i xc st)). \<not> is_goal p"
    using Cons.prems by (intro scan_char_no_goal) auto
  then show ?case using Cons.prems Cons.IH[of "scan_char i xc st"] by simp
qed

lemma fold_lines_no_goal:
  "\<forall>il \<in> set ils. char_goal \<notin> set (snd il) \<Longrightarrow> \<forall>p \<in> set (fst st). \<not> is_goal p \<Longrightarrow>
     \<forall>p \<in> set (fst (fold (\<lambda>il st. fold (scan_char (fst il)) (enumerate 0 (snd il)) st) ils st)).
        \<not> is_goal p"
proof (induction ils arbitrary: st)
  case Nil
  then show ?case by simp
next
  case (Cons il ils)
  have 1: "\<forall>xc \<in> set (enumerate 0 (snd il)). snd xc \<noteq> char_goal"
    using Cons.prems(1) by (auto simp: in_set_enumerate_eq) (metis nth_mem)
  have 2: "\<forall>p \<in> set (fst (fold (scan_char (fst il)) (enumerate 0 (snd il)) st)). \<not> is_goal p"
    using fold_scan_char_no_goal[OF 1 Cons.prems(2)] .
  show ?case using Cons.IH[OF _ 2] Cons.prems(1) by simp
qed

lemma scan_lines_no_goal:
  assumes "\<forall>line \<in> set lines. char_goal \<notin> set line"
  shows "filter is_goal (fst (scan_lines lines)) = []"
proof -
  have "\<forall>il \<in> set (enumerate 0 lines). char_goal \<notin> set (snd il)"
    using assms by (auto simp: in_set_enumerate_eq)
  then have "\<forall>p \<in> set (fst (scan_lines lines)). \<not> is_goal p"
    unfolding scan_lines_def by (intro fold_lines_no_goal) auto
  then show ?thesis by (simp add: filter_empty_conv)
qed

text \<open>
  C8, as the code has it.  For a layout without a goal character the program ends with an
  error before the search starts: the error of the board construction when that fails,
  and otherwise an attribute error, raised when the root state reads the coordinates of
  the goal piece that the board does not have.
\<close>

theorem no_goal_piece_fails:
  assumes "\<forall>line \<in> set lines. char_goal \<notin> set line"
  shows "\<exists>e. root_state lines = Inl e \<and> main_prog lines a = Some (Inl e) \<and>
           (e = ValueError ''The board is not valid.'' \<or> e = IndexError \<or> e = AttributeError) \<and>
           (e = AttributeError \<longleftrightarrow> \<not> isl (read_from_file lines))"
proof (cases "read_from_file lines")
  case (Inl e)
  then have "e = IndexError \<or> e = ValueError ''The board is not valid.''"
    using Board_init_failure[of "fst (scan_lines lines)"] by (auto simp: read_from_file_def)
  then show ?thesis using Inl by (auto simp: root_state_def main_prog_def ebind_def)
next
  case (Inr b)
  then have "goal b = None"
    using Board_init_goal[of "fst (scan_lines lines)" b] scan_lines_no_goal[OF assms]
    by (simp add: read_from_file_def last_goal_def)
  then show ?thesis using Inr
    by (auto simp: root_state_def main_prog_def ebind_def State_init_def goal_distance_def)
qed

theorem no_goal_piece_fails_witness:
  "root_state nogoal_layout = Inl AttributeError \<and>
   main_prog nogoal_layout Astar = Some (Inl AttributeError)"
proof -
  have h: "\<forall>line \<in> set nogoal_layout. char_goal \<notin> set line" by code_simp
  have r: "\<not> isl (read_from_file nogoal_layout)" by code_simp
  show ?thesis using no_goal_piece_fails[OF h, of Astar] r by auto
qed

text \<open>
  The claim as stated fails: the layout of eighteen singles loads into a board, no
  malformed-input error is raised, and the program ends with an attribute error.
\<close>

theorem no_goal_piece_counterexample:
  "\<not> isl (read_from_file nogoal_layout) \<and>
   filter is_goal (fst (scan_lines nogoal_layout)) = [] \<and>
   main_prog nogoal_layout Astar = Some (Inl AttributeError) \<and>
   main_prog nogoal_layout Dfs = Some (Inl AttributeError) \<and>
   AttributeError \<noteq> ValueError ''The board is not valid.''"
  by code_simp

subsection \<open>A move leaves the board it is applied to alone\<close>

lemma Board_init_construct:
  "Board_init ps = (case construct_grid 5 4 ps of Inl e \<Rightarrow> Inl e
     | Inr st \<Rightarrow> Inr \<lparr>width = 4, height = 5, pieces = ps, grid = fst st, goal = snd st,
          board_string = py_join [CHR 0x0A] (fst st)\<rparr>)"
  by (simp add: Board_init_def ebind_def split: sum.splits)

text \<open>
  C9.  Whatever a call of \<^verbatim>\<open>move\<close> on a board with an index in range does, succeed or
  raise, no list object and no board object that existed before the call is changed: the
  board it was called on has the piece list, the grid and the string it had.  The call
  raises exactly when the translation of the piece or the construction of the new board
  raises.  When it succeeds, the new board is a new object whose list is a new list object,
  equal to the old list with the piece at the index replaced by its translated copy, and
  the new board is what the board constructor makes of that list.
\<close>

theorem Board_move_frame:
  assumes s: "self < fresh_board \<sigma>" and l: "o_pieces (boards \<sigma> self) < fresh \<sigma>"
    and i: "i < length (pieces (board_value \<sigma> self))"
    and r: "r = Board_move_store \<sigma> self (int i) x y"
  shows "(\<forall>a < fresh \<sigma>. cells (snd r) a = cells \<sigma> a) \<and>
         (\<forall>a < fresh_board \<sigma>. boards (snd r) a = boards \<sigma> a) \<and>
         board_value (snd r) self = board_value \<sigma> self \<and>
         (\<forall>e. Board_move (board_value \<sigma> self) (int i) x y = Inl e \<longrightarrow> fst r = Inl e) \<and>
         (\<forall>nb. Board_move (board_value \<sigma> self) (int i) x y = Inr nb \<longrightarrow>
            fst r = Inr (fresh_board \<sigma>) \<and>
            board_value (snd r) (fresh_board \<sigma>) = nb \<and>
            o_pieces (boards (snd r) (fresh_board \<sigma>)) = fresh \<sigma> \<and>
            (\<exists>q. Piece_move (pieces (board_value \<sigma> self) ! i) x y = Inr q \<and>
                 pieces nb = (pieces (board_value \<sigma> self))[i := q]) \<and>
            Board_init (pieces nb) = Inr nb)"
proof -
  define ps where "ps = cells \<sigma> (o_pieces (boards \<sigma> self))"
  have pv: "pieces (board_value \<sigma> self) = ps" by (simp add: board_value_def ps_def)
  have il: "i < length ps" using i pv by simp
  have mv: "Board_move (board_value \<sigma> self) (int i) x y =
      (case Piece_move (ps ! i) x y of Inl e \<Rightarrow> Inl e | Inr q \<Rightarrow> Board_init (ps[i := q]))"
    using Board_move_in_range[of i "board_value \<sigma> self" x y] il pv
    by (simp split: sum.splits)
  show ?thesis
  proof (cases "Piece_move (ps ! i) x y")
    case (Inl e)
    then have "r = (Inl e, snd (list_copy \<sigma> (o_pieces (boards \<sigma> self))))"
      using il unfolding r Board_move_store_def Let_def
      by (simp add: list_copy_def list_getitem_def py_index_cases ebind_def ps_def)
    then show ?thesis using Inl mv l s
      by (auto simp: list_copy_def board_value_def ps_def)
  next
    case (Inr q)
    show ?thesis
    proof (cases "construct_grid 5 4 (ps[i := q])")
      case (Inl e)
      then have "r = (Inl e, \<sigma>\<lparr>cells := (cells \<sigma>)(fresh \<sigma> := ps[i := q]), fresh := Suc (fresh \<sigma>)\<rparr>)"
        using il Inr unfolding r Board_move_store_def Let_def
        by (simp add: list_copy_def list_getitem_def list_setitem_def py_index_cases ebind_def
            ps_def Board_init_store_def)
      then show ?thesis using Inl Inr mv l s
        by (auto simp: board_value_def ps_def Board_init_construct)
    next
      case st: (Inr st)
      then have "r = (Inr (fresh_board \<sigma>),
          \<sigma>\<lparr>cells := (cells \<sigma>)(fresh \<sigma> := ps[i := q]), fresh := Suc (fresh \<sigma>),
            boards := (boards \<sigma>)(fresh_board \<sigma> :=
                 \<lparr>o_width = 4, o_height = 5, o_pieces = fresh \<sigma>, o_grid = fst st,
                  o_goal = snd st, o_board_string = py_join [CHR 0x0A] (fst st)\<rparr>),
            fresh_board := Suc (fresh_board \<sigma>)\<rparr>)"
        using il Inr unfolding r Board_move_store_def Let_def
        by (simp add: list_copy_def list_getitem_def list_setitem_def py_index_cases ebind_def
            ps_def Board_init_store_def)
      then show ?thesis using st Inr mv l s
        by (auto simp: board_value_def ps_def Board_init_construct)
    qed
  qed
qed

lemma classic_store_self: "(0::nat) < fresh_board classic_store" by code_simp
lemma classic_store_list: "o_pieces (boards classic_store 0) < fresh classic_store" by code_simp
lemma classic_store_index0: "(0::nat) < length (pieces (board_value classic_store 0))" by code_simp
lemma classic_store_index6: "(6::nat) < length (pieces (board_value classic_store 0))" by code_simp
lemma classic_store_move0:
  "Board_move (board_value classic_store 0) (int 0) 1 0 = Inl (ValueError ''The board is not valid.'')"
  by code_simp
lemma classic_store_move6:
  "\<not> isl (Board_move (board_value classic_store 0) (int 6) 0 1)"
  by code_simp

theorem Board_move_frame_witness:
  "0 < fresh_board classic_store \<and> o_pieces (boards classic_store 0) < fresh classic_store \<and>
   0 < length (pieces (board_value classic_store 0)) \<and>
   6 < length (pieces (board_value classic_store 0)) \<and>
   fst (Board_move_store classic_store 0 (int 0) 1 0) = Inl (ValueError ''The board is not valid.'') \<and>
   board_value (snd (Board_move_store classic_store 0 (int 0) 1 0)) 0 = board_value classic_store 0 \<and>
   fst (Board_move_store classic_store 0 (int 6) 0 1) = Inr (fresh_board classic_store) \<and>
   board_value (snd (Board_move_store classic_store 0 (int 6) 0 1)) 0 = board_value classic_store 0"
  using Board_move_frame[OF classic_store_self classic_store_list classic_store_index0 refl, of 1 0]
    Board_move_frame[OF classic_store_self classic_store_list classic_store_index6 refl, of 0 1]
    classic_store_self classic_store_list classic_store_index0 classic_store_index6
    classic_store_move0 sum_Inr_projr[OF classic_store_move6]
  by simp

subsection \<open>The grid as the overlay of the footprints\<close>

lemma footprint_writes: "footprint p = map fst (piece_writes p)"
  by (simp add: footprint_def piece_writes_def Let_def)

lemma overlay_Nil [simp]: "overlay [] m = m"
  by (simp add: overlay_def)

lemma overlay_Cons [simp]: "overlay (w # ws) m = overlay ws (m(fst w := snd w))"
  by (simp add: overlay_def)

lemma overlay_append [simp]: "overlay (ws @ vs) m = overlay vs (overlay ws m)"
  by (simp add: overlay_def)

lemma grid_set_cell:
  assumes s: "shape_ok 5 4 g" and c: "in_grid (x, y)"
  shows "\<exists>g'. grid_set g y x ch = Inr g' \<and> shape_ok 5 4 g' \<and>
           (\<forall>c'. in_grid c' \<longrightarrow> cell_of g' c' = ((cell_of g)((x, y) := ch)) c')"
proof -
  have l: "length g = 5" and r: "\<And>k. k < 5 \<Longrightarrow> length (g ! k) = 4"
    using s by (auto simp: shape_ok_def)
  have y: "nat y < 5" and x: "nat x < 4" and y0: "0 \<le> y" and x0: "0 \<le> x"
    and y5: "y < 5" and x4: "x < 4"
    using c by (auto simp: in_grid_def)
  have e: "grid_set g y x ch = Inr (g[nat y := (g ! nat y)[nat x := ch]])"
    using y x y0 x0 y5 x4 r[OF y] by (simp add: grid_set_def py_index_cases l ebind_def)
  have sh: "shape_ok 5 4 (g[nat y := (g ! nat y)[nat x := ch]])"
    using shape_ok_grid_set[OF e s] .
  have "cell_of (g[nat y := (g ! nat y)[nat x := ch]]) c' = ((cell_of g)((x, y) := ch)) c'"
    if "in_grid c'" for c'
  proof -
    obtain x' y' where c': "c' = (x', y')" by (cases c')
    have b: "nat y' < 5" "nat x' < 4" "0 \<le> x'" "0 \<le> y'" using that c' by (auto simp: in_grid_def)
    show ?thesis
      using b y x x0 y0 l r[OF y] r[OF b(1)]
      by (auto simp: cell_of_def c' nth_list_update)
  qed
  then show ?thesis using e sh by blast
qed

lemma grid_set_cell_overlay:
  assumes s: "shape_ok 5 4 g" and c: "in_grid (x, y)"
    and m: "\<forall>c'. in_grid c' \<longrightarrow> cell_of g c' = m c'"
  shows "\<exists>g'. grid_set g y x ch = Inr g' \<and> shape_ok 5 4 g' \<and>
           (\<forall>c'. in_grid c' \<longrightarrow> cell_of g' c' = (m((x, y) := ch)) c')"
  using grid_set_cell[OF s c, of ch] m by fastforce

lemma place_piece_write_all:
  "place_piece st p =
     ebind (write_all (fst st) (piece_writes p))
       (\<lambda>g. Inr (g, if is_goal p then Some p else snd st))"
  by (cases st) (simp add: place_piece_def piece_writes_def Let_def ebind_def split: sum.splits)

lemma write_all_overlay:
  assumes "shape_ok 5 4 g" "list_all in_grid (map fst ws)"
    "\<forall>c. in_grid c \<longrightarrow> cell_of g c = m c"
  shows "\<exists>g'. write_all g ws = Inr g' \<and> shape_ok 5 4 g' \<and>
           (\<forall>c. in_grid c \<longrightarrow> cell_of g' c = overlay ws m c)"
  using assms
proof (induction ws arbitrary: g m)
  case Nil
  then show ?case by simp
next
  case (Cons w ws)
  obtain x y ch where w: "w = ((x, y), ch)" by (cases w) auto
  have c: "in_grid (x, y)" using Cons.prems(2) w by simp
  from grid_set_cell_overlay[OF Cons.prems(1) c Cons.prems(3), of ch]
  obtain g1 where g1: "grid_set g y x ch = Inr g1" "shape_ok 5 4 g1"
    "\<forall>c'. in_grid c' \<longrightarrow> cell_of g1 c' = (m((x, y) := ch)) c'" by blast
  have r: "list_all in_grid (map fst ws)" using Cons.prems(2) by simp
  have 1: "write_all g (w # ws) = write_all g1 ws" using g1(1) by (simp add: w ebind_def)
  have 2: "overlay (w # ws) m = overlay ws (m((x, y) := ch))" by (simp add: w)
  show ?case unfolding 1 2 by (rule Cons.IH[OF g1(2) r g1(3)])
qed

lemma place_pieces_overlay:
  assumes "shape_ok 5 4 (fst st)" "list_all in_grid (concat (map footprint ps))"
    "\<forall>c. in_grid c \<longrightarrow> cell_of (fst st) c = m c"
  shows "\<exists>st'. place_pieces st ps = Inr st' \<and> shape_ok 5 4 (fst st') \<and>
           (\<forall>c. in_grid c \<longrightarrow> cell_of (fst st') c = overlay (concat (map piece_writes ps)) m c)"
  using assms
proof (induction ps arbitrary: st m)
  case Nil
  then show ?case by simp
next
  case (Cons p ps)
  have a: "list_all in_grid (map fst (piece_writes p))"
    using Cons.prems(2) by (simp add: footprint_writes)
  from write_all_overlay[OF Cons.prems(1) a Cons.prems(3)]
  obtain g1 where g1: "write_all (fst st) (piece_writes p) = Inr g1" "shape_ok 5 4 g1"
    "\<forall>c. in_grid c \<longrightarrow> cell_of g1 c = overlay (piece_writes p) m c" by blast
  define st1 where "st1 = (g1, if is_goal p then Some p else snd st)"
  have e: "place_piece st p = Inr st1"
    by (simp add: place_piece_write_all g1(1) ebind_def st1_def)
  have s1: "shape_ok 5 4 (fst st1)" using g1(2) by (simp add: st1_def)
  have m1: "\<forall>c. in_grid c \<longrightarrow> cell_of (fst st1) c = overlay (piece_writes p) m c"
    using g1(3) by (simp add: st1_def)
  have r: "list_all in_grid (concat (map footprint ps))" using Cons.prems(2) by simp
  from Cons.IH[OF s1 r m1] show ?case
    using e by (simp add: ebind_def)
qed




lemma footprint_concat:
  "concat (map footprint ps) = map fst (concat (map piece_writes ps))"
  by (induction ps) (simp_all add: footprint_writes)

lemma empty_grid_cells: "in_grid c \<Longrightarrow> cell_of (empty_grid 5 4) c = dot c"
  by (auto simp: cell_of_def empty_grid_def in_grid_def dot_def)

lemma overlay_grid:
  assumes "list_all in_grid (concat (map footprint ps))"
  shows "\<exists>st. place_pieces (empty_grid 5 4, None) ps = Inr st \<and> shape_ok 5 4 (fst st) \<and>
           (\<forall>c. in_grid c \<longrightarrow> cell_of (fst st) c = overlay (concat (map piece_writes ps)) dot c)"
  using place_pieces_overlay[of "(empty_grid 5 4, None)" ps dot] assms
  by (simp add: shape_ok_empty empty_grid_cells)



subsection \<open>Equality and hash of states\<close>

lemma classic_well_placed: "well_placed (fst (scan_lines classic_layout))"
  by code_simp







subsection \<open>Cells, strings and the count of empty cells\<close>

lemma length4: "length r = 4 \<Longrightarrow> \<exists>a b c d. r = [a, b, c, d]"
  by (auto simp: numeral_eq_Suc length_Suc_conv)

lemma length5: "length g = 5 \<Longrightarrow> \<exists>a b c d e. g = [a, b, c, d, e]"
  by (auto simp: numeral_eq_Suc length_Suc_conv)

lemma shape_explicit:
  assumes "shape_ok 5 4 g"
  shows "\<exists>a0 a1 a2 a3 b0 b1 b2 b3 c0 c1 c2 c3 d0 d1 d2 d3 e0 e1 e2 e3.
           g = [[a0, a1, a2, a3], [b0, b1, b2, b3], [c0, c1, c2, c3], [d0, d1, d2, d3],
                [e0, e1, e2, e3]]"
proof -
  obtain a b c d e where g: "g = [a, b, c, d, e]"
    using length5[of g] assms by (auto simp: shape_ok_def)
  have "length a = 4" "length b = 4" "length c = 4" "length d = 4" "length e = 4"
    using assms g by (auto simp: shape_ok_def)
  then show ?thesis
    unfolding g using length4[of a] length4[of b] length4[of c] length4[of d] length4[of e]
    by auto
qed

lemma concat_cells:
  assumes "shape_ok 5 4 g"
  shows "concat g = map (cell_of g) all_cells"
proof -
  from shape_explicit[OF assms] obtain a0 a1 a2 a3 b0 b1 b2 b3 c0 c1 c2 c3 d0 d1 d2 d3 e0 e1 e2 e3
    where g: "g = [[a0, a1, a2, a3], [b0, b1, b2, b3], [c0, c1, c2, c3], [d0, d1, d2, d3],
                [e0, e1, e2, e3]]" by blast
  show ?thesis unfolding g by (simp add: all_cells_def cell_of_def)
qed

lemma py_join_inj:
  assumes "shape_ok 5 4 g" "shape_ok 5 4 g'" "py_join [CHR 0x0A] g = py_join [CHR 0x0A] g'"
  shows "g = g'"
proof -
  from shape_explicit[OF assms(1)] obtain a0 a1 a2 a3 b0 b1 b2 b3 c0 c1 c2 c3 d0 d1 d2 d3 e0 e1 e2 e3
    where g: "g = [[a0, a1, a2, a3], [b0, b1, b2, b3], [c0, c1, c2, c3], [d0, d1, d2, d3],
                [e0, e1, e2, e3]]" by blast
  from shape_explicit[OF assms(2)] obtain a0' a1' a2' a3' b0' b1' b2' b3' c0' c1' c2' c3' d0' d1' d2' d3' e0' e1' e2' e3'
    where g': "g' = [[a0', a1', a2', a3'], [b0', b1', b2', b3'], [c0', c1', c2', c3'],
                [d0', d1', d2', d3'], [e0', e1', e2', e3']]" by blast
  show ?thesis using assms(3) unfolding g g' by simp
qed

lemma all_cells_distinct: "distinct all_cells"
  by (simp add: all_cells_def)

lemma all_cells_set: "set all_cells = {c. in_grid c}"
proof -
  have "in_grid (x, y) \<longleftrightarrow> (x, y) \<in> set all_cells" for x y
    unfolding in_grid_def all_cells_def by (simp; presburger)
  then show ?thesis by auto
qed

lemma count_list_map_filter:
  "count_list (map k xs) v = length (filter (\<lambda>c. k c = v) xs)"
  by (induction xs) auto

lemma count_empty_cells:
  assumes "shape_ok 5 4 g"
  shows "count_empty g = card {c. in_grid c \<and> cell_of g c = CHR ''.''}"
proof -
  have "count_empty g = count_list (map (cell_of g) all_cells) (CHR ''.'')"
    by (simp add: count_empty_eq concat_cells[OF assms])
  also have "\<dots> = length (filter (\<lambda>c. cell_of g c = CHR ''.'') all_cells)"
    by (rule count_list_map_filter)
  also have "\<dots> = card (set (filter (\<lambda>c. cell_of g c = CHR ''.'') all_cells))"
    using distinct_card[OF distinct_filter[OF all_cells_distinct]] by simp
  also have "\<dots> = card {c. in_grid c \<and> cell_of g c = CHR ''.''}"
    by (rule arg_cong[where f=card]) (auto simp: all_cells_set)
  finally show ?thesis .
qed

lemma writes_not_dot: "(c, ch) \<in> set (piece_writes p) \<Longrightarrow> ch \<noteq> CHR ''.''"
  by (auto simp: piece_writes_def Let_def char_goal_def char_single_def split: if_splits)

lemma overlay_snoc: "overlay (ws @ [w]) m = (overlay ws m)(fst w := snd w)"
  by simp

lemma overlay_outside: "c \<notin> fst ` set ws \<Longrightarrow> overlay ws m c = m c"
  by (induction ws arbitrary: m) auto

lemma overlay_inside: "c \<in> fst ` set ws \<Longrightarrow> \<exists>ch. (c, ch) \<in> set ws \<and> overlay ws m c = ch"
proof (induction ws rule: rev_induct)
  case Nil
  then show ?case by simp
next
  case (snoc w ws)
  show ?case
  proof (cases "c = fst w")
    case True
    then show ?thesis by (cases w) (auto simp: overlay_snoc simp del: overlay_append)
  next
    case False
    then have "c \<in> fst ` set ws" using snoc.prems by auto
    from snoc.IH[OF this] show ?thesis using False
      by (auto simp: overlay_snoc simp del: overlay_append)
  qed
qed

lemma covered_writes: "covered ps = fst ` set (concat (map piece_writes ps))"
  by (simp add: covered_def footprint_concat)

lemma concat_writes_not_dot:
  "(c, ch) \<in> set (concat (map piece_writes ps)) \<Longrightarrow> ch \<noteq> CHR ''.''"
  by (auto dest: writes_not_dot)

lemma overlay_dot_iff:
  "overlay (concat (map piece_writes ps)) dot c = CHR ''.'' \<longleftrightarrow> c \<notin> covered ps"
proof (cases "c \<in> covered ps")
  case True
  then obtain ch where "(c, ch) \<in> set (concat (map piece_writes ps))"
    "overlay (concat (map piece_writes ps)) dot c = ch"
    using overlay_inside[of c "concat (map piece_writes ps)" dot] by (auto simp: covered_writes)
  then show ?thesis using True concat_writes_not_dot by blast
next
  case False
  then show ?thesis
    using overlay_outside[of c "concat (map piece_writes ps)" dot]
    by (simp add: covered_writes dot_def)
qed

lemma card_in_grid: "card {c. in_grid c} = 20"
proof -
  have "length all_cells = 20" by (simp add: all_cells_def)
  then show ?thesis
    using distinct_card[OF all_cells_distinct] by (simp add: all_cells_set)
qed

lemma finite_in_grid: "finite {c. in_grid c}"
  using all_cells_set by (metis List.finite_set)

lemma placed_cells:
  assumes a: "list_all in_grid (concat (map footprint ps))"
    and p: "place_pieces (empty_grid 5 4, None) ps = Inr st"
  shows "shape_ok 5 4 (fst st) \<and>
         (\<forall>c. in_grid c \<longrightarrow> (cell_of (fst st) c = CHR ''.'' \<longleftrightarrow> c \<notin> covered ps)) \<and>
         count_empty (fst st) = 20 - card (covered ps)"
proof -
  from overlay_grid[OF a] p have s: "shape_ok 5 4 (fst st)"
    and c: "\<forall>c. in_grid c \<longrightarrow> cell_of (fst st) c = overlay (concat (map piece_writes ps)) dot c"
    by auto
  have d: "\<forall>c. in_grid c \<longrightarrow> (cell_of (fst st) c = CHR ''.'' \<longleftrightarrow> c \<notin> covered ps)"
    using c overlay_dot_iff by simp
  have sub: "covered ps \<subseteq> {c. in_grid c}"
    using a by (auto simp: covered_def list_all_iff)
  have "{c. in_grid c \<and> cell_of (fst st) c = CHR ''.''} = {c. in_grid c} - covered ps"
    using d by auto
  then have "count_empty (fst st) = card ({c. in_grid c} - covered ps)"
    by (simp add: count_empty_cells[OF s])
  also have "\<dots> = 20 - card (covered ps)"
    using card_Diff_subset[of "covered ps" "{c. in_grid c}"] sub finite_in_grid card_in_grid
    by (simp add: finite_subset)
  finally show ?thesis using s d by simp
qed

subsection \<open>A move on a board without overlap\<close>

lemma in_range_in_grid:
  "writes_in_range q \<Longrightarrow> 0 \<le> coord_x q \<Longrightarrow> 0 \<le> coord_y q \<Longrightarrow> list_all in_grid (footprint q)"
  by (auto simp: writes_in_range_def footprint_def in_grid_def row_ok_def col_ok_def Let_def
      split: if_splits)

lemma moved_footprint_length:
  "Piece_move p dx dy = Inr q \<Longrightarrow> length (footprint q) = length (footprint p)"
  by (auto simp: Piece_move_def footprint_def Let_def split: if_splits)

lemma moved_new_cell_explicit:
  assumes "Piece_move p dx dy = Inr q" "(dx, dy) \<in> set directions" "footprint p \<noteq> []"
  shows "(if dx = 1 \<or> dy = 1 then last (footprint q) else hd (footprint q))
           \<in> set (footprint q) - set (footprint p)"
proof -
  have q: "is_goal q = is_goal p" "is_single q = is_single p" "orientation q = orientation p"
    "coord_x q = coord_x p + dx" "coord_y q = coord_y p + dy"
    using Piece_move_Inr[OF assms(1)] by auto
  consider "dx = 1 \<and> dy = 0" | "dx = -1 \<and> dy = 0" | "dx = 0 \<and> dy = 1" | "dx = 0 \<and> dy = -1"
    using assms(2) by (auto simp: directions_def)
  then show ?thesis
  proof cases
    case 1
    then show ?thesis using assms(3) by (auto simp: footprint_def q Let_def split: if_splits)
  next
    case 2
    then show ?thesis using assms(3) by (auto simp: footprint_def q Let_def split: if_splits)
  next
    case 3
    then show ?thesis using assms(3) by (auto simp: footprint_def q Let_def split: if_splits)
  next
    case 4
    then show ?thesis using assms(3) by (auto simp: footprint_def q Let_def split: if_splits)
  qed
qed

lemma moved_new_cell:
  assumes "Piece_move p dx dy = Inr q" "(dx, dy) \<in> set directions" "footprint p \<noteq> []"
  shows "\<exists>c \<in> set (footprint q). c \<notin> set (footprint p)"
  using moved_new_cell_explicit[OF assms] by blast

lemma footprints_split:
  "i < length ps \<Longrightarrow>
     concat (map footprint (ps[i := q])) =
       concat (map footprint (take i ps)) @ footprint q @ concat (map footprint (drop (Suc i) ps))"
  by (simp add: upd_conv_take_nth_drop)

lemma footprints_split_id:
  "i < length ps \<Longrightarrow>
     concat (map footprint ps) =
       concat (map footprint (take i ps)) @ footprint (ps ! i) @
       concat (map footprint (drop (Suc i) ps))"
  using footprints_split[of i ps "ps ! i"] by simp

lemma Board_init_in_range:
  "Board_init ps = Inr b \<Longrightarrow> p \<in> set ps \<Longrightarrow> writes_in_range p"
  using Board_init_failure[of ps] by auto

lemma Board_init_placed:
  assumes "Board_init ps = Inr b" "list_all in_grid (concat (map footprint ps))"
  shows "shape_ok 5 4 (grid b) \<and>
         (\<forall>c. in_grid c \<longrightarrow> (cell_of (grid b) c = CHR ''.'' \<longleftrightarrow> c \<notin> covered ps)) \<and>
         card (covered ps) = 18"
proof -
  from assms(1) obtain st where st: "place_pieces (empty_grid 5 4, None) ps = Inr st"
    "count_empty (fst st) = 2" "grid b = fst st"
    unfolding Board_init_Inr_iff by auto
  have le: "card (covered ps) \<le> 20"
    using card_mono[OF finite_in_grid, of "covered ps"] assms(2) card_in_grid
    by (auto simp: covered_def list_all_iff)
  show ?thesis using placed_cells[OF assms(2) st(1)] st(2,3) le by auto
qed

lemma moved_well_placed:
  assumes w: "well_placed ps" and b: "Board_init ps = Inr b" and i: "i < length ps"
    and q: "Piece_move (ps ! i) dx dy = Inr q" and d: "(dx, dy) \<in> set directions"
    and n: "Board_init (ps[i := q]) = Inr nb"
  shows "well_placed (ps[i := q]) \<and> grid nb \<noteq> grid b \<and> board_string nb \<noteq> board_string b"
proof -
  let ?A = "concat (map footprint (take i ps))" and ?B = "concat (map footprint (drop (Suc i) ps))"
  let ?p = "ps ! i"
  have old: "concat (map footprint ps) = ?A @ footprint ?p @ ?B"
    using footprints_split_id[OF i] .
  have new: "concat (map footprint (ps[i := q])) = ?A @ footprint q @ ?B"
    using footprints_split[OF i] .
  have wo: "distinct (?A @ footprint ?p @ ?B)" "list_all in_grid (?A @ footprint ?p @ ?B)"
    using w old by (simp_all add: well_placed_def)
  have qm: "q \<in> set (ps[i := q])" using i by (simp add: set_update_memI)
  have qg: "list_all in_grid (footprint q)"
    using in_range_in_grid[OF Board_init_in_range[OF n qm]] Piece_move_Inr[OF q] by simp
  have gn: "list_all in_grid (concat (map footprint (ps[i := q])))"
    using wo(2) qg unfolding new by simp
  have go: "list_all in_grid (concat (map footprint ps))"
    using w by (simp add: well_placed_def)
  from Board_init_placed[OF b go] have so: "shape_ok 5 4 (grid b)"
    and co: "\<forall>c. in_grid c \<longrightarrow> (cell_of (grid b) c = CHR ''.'' \<longleftrightarrow> c \<notin> covered ps)"
    and ko: "card (covered ps) = 18" by auto
  from Board_init_placed[OF n gn] have sn: "shape_ok 5 4 (grid nb)"
    and cn: "\<forall>c. in_grid c \<longrightarrow> (cell_of (grid nb) c = CHR ''.'' \<longleftrightarrow> c \<notin> covered (ps[i := q]))"
    and kn: "card (covered (ps[i := q])) = 18" by auto
  have lo: "length (?A @ footprint ?p @ ?B) = 18"
    using distinct_card[OF wo(1)] ko old by (simp add: covered_def)
  have ln: "length (?A @ footprint q @ ?B) = 18"
    using lo moved_footprint_length[OF q] by simp
  have dn: "distinct (?A @ footprint q @ ?B)"
    using kn ln new by (intro card_distinct) (simp add: covered_def)
  have ne: "list_all (\<lambda>p. footprint p \<noteq> []) (ps[i := q])"
  proof -
    have "footprint ?p \<noteq> []" using w i by (simp add: well_placed_def list_all_length)
    then have "footprint q \<noteq> []" using moved_footprint_length[OF q] by auto
    then show ?thesis
      using w by (auto simp: well_placed_def list_all_iff dest!: set_update_subset_insert[THEN subsetD])
  qed
  have wn: "well_placed (ps[i := q])"
    using dn gn ne new by (simp add: well_placed_def)
  have fp: "footprint ?p \<noteq> []" using w i by (simp add: well_placed_def list_all_length)
  from moved_new_cell[OF q d fp] obtain c where c: "c \<in> set (footprint q)" "c \<notin> set (footprint ?p)"
    by blast
  have cg: "in_grid c" using qg c(1) by (simp add: list_all_iff)
  have cAB: "c \<notin> set ?A \<union> set ?B" using dn c(1) by auto
  have "c \<notin> covered ps" using cAB c(2) old by (simp add: covered_def)
  then have 1: "cell_of (grid b) c = CHR ''.''" using co cg by blast
  have "c \<in> covered (ps[i := q])" using c(1) new by (simp add: covered_def)
  then have 2: "cell_of (grid nb) c \<noteq> CHR ''.''" using cn cg by blast
  have g: "grid nb \<noteq> grid b" using 1 2 by auto
  have sb: "board_string b = py_join [CHR 0x0A] (grid b)"
    "board_string nb = py_join [CHR 0x0A] (grid nb)"
    using b n unfolding Board_init_Inr_iff by auto
  have "board_string nb \<noteq> board_string b"
    using py_join_inj[OF sn so] g sb by auto
  then show ?thesis using wn g by simp
qed

lemma classic_first_successor: "0 < length (generate_successors classic_root)"
  by code_simp

text \<open>
  C10, as the code has it.  For a state whose board was constructed from a piece list with
  pairwise disjoint, non-empty footprints inside the grid, every successor has a board
  whose grid and string differ from those of the state, so no successor is equal to the
  state; and the piece list of every successor has such footprints again.
\<close>

theorem successor_string_differs:
  assumes b: "Board_init ps = Inr (board s)" and w: "well_placed ps"
  shows "\<forall>t \<in> set (generate_successors s).
           board_string (board t) \<noteq> board_string (board s) \<and> \<not> State_eq t s \<and>
           grid (board t) \<noteq> grid (board s) \<and> well_placed (pieces (board t))"
proof
  fix t assume t: "t \<in> set (generate_successors s)"
  from successor_cases[OF t] obtain i dd nb where
    i: "i < length (pieces (board s))" and dd: "dd \<in> set directions"
    and m: "Board_move (board s) (int i) (fst dd) (snd dd) = Inr nb"
    and ti: "State_init nb (depth s + 1) (Some s) = Inr t"
    by blast
  have p: "pieces (board s) = ps" using b by (rule Board_init_pieces)
  have bt: "board t = nb" using ti unfolding State_init_Inr by auto
  from Board_move_Inr[OF i m] obtain q where
    q: "Piece_move (ps ! i) (fst dd) (snd dd) = Inr q" and n: "Board_init (ps[i := q]) = Inr nb"
    using p by auto
  have il: "i < length ps" using i p by simp
  have d: "(fst dd, snd dd) \<in> set directions" using dd by simp
  from moved_well_placed[OF w b il q d n] Board_init_pieces[OF n]
  show "board_string (board t) \<noteq> board_string (board s) \<and> \<not> State_eq t s \<and>
         grid (board t) \<noteq> grid (board s) \<and> well_placed (pieces (board t))"
    by (simp add: bt State_eq_def)
qed

theorem successor_string_differs_witness:
  "Board_init (fst (scan_lines classic_layout)) = Inr (board classic_root) \<and>
   well_placed (fst (scan_lines classic_layout)) \<and>
   generate_successors classic_root ! 0 \<in> set (generate_successors classic_root) \<and>
   board_string (board (generate_successors classic_root ! 0)) \<noteq> board_string (board classic_root)"
  using successor_string_differs[OF classic_root_board classic_well_placed]
    classic_root_board classic_well_placed nth_mem[OF classic_first_successor]
  by blast

text \<open>
  The claim as stated fails where pieces overlap.  In the first successor of the root of
  the overlap layout the single of the corner lies under the horizontal piece; moving it
  one cell to the right keeps it under that piece, the move succeeds, and the successor
  has the same string as its parent.
\<close>

theorem successor_same_string_counterexample:
  "0 < length (generate_successors overlap_root) \<and>
   0 < length (generate_successors hidden_state) \<and>
   board_string (board (generate_successors hidden_state ! 0)) = board_string (board hidden_state) \<and>
   State_eq (generate_successors hidden_state ! 0) hidden_state"
  by code_simp

end
